theory Spec2Isabelle
  imports Main "HOL-Library.Sublist"
begin

section \<open>Kairos audio auditor: text, regular-expression class, sanitizer\<close>

text \<open>
  A Python \<open>str\<close> is a sequence of Unicode code points. A code point is a natural
  number, a string is a list of them. Literals of the source are written as HOL strings
  and converted with \<open>ascii\<close>.
\<close>

type_synonym codepoint = nat
type_synonym pystr = "codepoint list"

definition ascii :: "string \<Rightarrow> pystr" where
  "ascii cs = map of_char cs"

text \<open>
  The pattern of \<open>sanitize\<close> is a \<open>str\<close> pattern compiled without flags, so
  \<open>\w\<close> and \<open>\s\<close> are the Unicode categories: \<open>\w\<close> is "alphanumeric or underscore",
  \<open>\s\<close> is "whitespace". Below 128 both are fixed tables of the interpreter. From 128 on
  they are read from the Unicode database that the interpreter ships, which is no part of
  this repository: it is a parameter of the model.
\<close>

record unicode_db =
  db_alnum :: "codepoint \<Rightarrow> bool"
  db_space :: "codepoint \<Rightarrow> bool"

definition ascii_alnum :: "codepoint \<Rightarrow> bool" where
  "ascii_alnum c = ((48 \<le> c \<and> c \<le> 57) \<or> (65 \<le> c \<and> c \<le> 90) \<or> (97 \<le> c \<and> c \<le> 122))"

definition ascii_space :: "codepoint \<Rightarrow> bool" where
  "ascii_space c = ((9 \<le> c \<and> c \<le> 13) \<or> (28 \<le> c \<and> c \<le> 32))"

definition is_word :: "unicode_db \<Rightarrow> codepoint \<Rightarrow> bool" where
  "is_word U c = (if c < 128 then ascii_alnum c \<or> c = 95 else db_alnum U c)"

definition is_space :: "unicode_db \<Rightarrow> codepoint \<Rightarrow> bool" where
  "is_space U c = (if c < 128 then ascii_space c else db_space U c)"

text \<open>
  A table that classifies no code point from 128 on. It serves to evaluate the model on
  ASCII text, where the result is the same under every table.
\<close>

definition ascii_db :: unicode_db where
  "ascii_db = \<lparr>db_alnum = (\<lambda>c. False), db_space = (\<lambda>c. False)\<rparr>"

text \<open>
  The members of a character class, and the class of the source,
  \<^verbatim>\<open>[^\w\s\.,!?\-]\<close>: the negation of \<open>\w\<close>, \<open>\s\<close> and the five literals
  \<open>.\<close> (46), \<open>,\<close> (44), \<open>!\<close> (33), \<open>?\<close> (63), \<open>-\<close> (45).
\<close>

datatype class_item = Cat_word | Cat_space | Literal codepoint

fun item_matches :: "unicode_db \<Rightarrow> class_item \<Rightarrow> codepoint \<Rightarrow> bool" where
  "item_matches U Cat_word c = is_word U c"
| "item_matches U Cat_space c = is_space U c"
| "item_matches U (Literal l) c = (c = l)"

fun in_class :: "unicode_db \<Rightarrow> class_item list \<Rightarrow> codepoint \<Rightarrow> bool" where
  "in_class U [] c = False"
| "in_class U (i # is) c = (item_matches U i c \<or> in_class U is c)"

definition sanitize_class :: "class_item list" where
  "sanitize_class = [Cat_word, Cat_space, Literal 46, Literal 44, Literal 33, Literal 63, Literal 45]"

text \<open>
  \<open>re.sub\<close> for a pattern that is one negated class: scanning from the left, every
  character outside the listed items is a match and is replaced by \<open>repl\<close>; every other
  character is copied.
\<close>

fun re_sub_negated :: "unicode_db \<Rightarrow> class_item list \<Rightarrow> pystr \<Rightarrow> pystr \<Rightarrow> pystr" where
  "re_sub_negated U items repl [] = []"
| "re_sub_negated U items repl (c # cs) =
     (if in_class U items c then c # re_sub_negated U items repl cs
      else repl @ re_sub_negated U items repl cs)"

definition sanitize :: "unicode_db \<Rightarrow> pystr \<Rightarrow> pystr" where
  "sanitize U text = re_sub_negated U sanitize_class [] text"

definition punctuation :: "codepoint \<Rightarrow> bool" where
  "punctuation c = (c = 46 \<or> c = 44 \<or> c = 33 \<or> c = 63 \<or> c = 45)"

section \<open>The application: widgets, worker threads, event loop\<close>

text \<open>
  \<open>str.strip()\<close> without argument removes leading and trailing whitespace, the same
  whitespace as that of \<open>\s\<close>.
\<close>

definition strip :: "unicode_db \<Rightarrow> pystr \<Rightarrow> pystr" where
  "strip U t = rev (dropWhile (is_space U) (rev (dropWhile (is_space U) t)))"

text \<open>
  The state of a button (\<open>tk.NORMAL\<close>, \<open>tk.DISABLED\<close>); what a call of the speech engine
  does (it returns or raises); the exceptions, split into those that
  \<open>except Exception\<close> catches and those it does not.
\<close>

datatype widget_state = NORMAL | DISABLED

datatype exn = Exception pystr | Base_exception pystr

datatype outcome = Returns | Raises exn

text \<open>
  A worker thread runs \<open>speak_task\<close>. Its program counter names the statement it is
  about to execute:
  \<^item> \<open>Spawned\<close>: before \<open>clean_text = self.sanitize(raw_text)\<close>;
  \<^item> \<open>Sanitized clean\<close>: before \<open>self.engine.setProperty('rate', self.rate_slider.get())\<close>;
  \<^item> \<open>Configured clean\<close>: before \<open>self.engine.say(clean_text)\<close>;
  \<^item> \<open>Speaking clean\<close>: inside \<open>self.engine.runAndWait()\<close>, which blocks;
  \<^item> \<open>Finally p\<close>: before \<open>self.root.after(0, self.reset_ui)\<close> of the \<open>finally\<close>
    clause, \<open>p\<close> being an exception that no handler caught;
  \<^item> \<open>Ended p\<close>: the thread is over (\<open>p\<close> as before).
  \<open>raw_text\<close> is the variable of \<open>run_audio\<close> that the closure captures.
\<close>

datatype phase =
    Spawned
  | Sanitized pystr
  | Configured pystr
  | Speaking pystr
  | Finally "exn option"
  | Ended "exn option"

record worker =
  raw_text :: pystr
  pc :: phase

datatype callback = Reset_ui

text \<open>
  The trace records, in order, the calls the program makes on widgets, on the engine and
  on the console, each with the execution context that makes it. Colours are left out.
\<close>

datatype "context" = Main | Worker nat

datatype action =
    Btn_config widget_state
  | Status_config pystr
  | Show_warning pystr pystr
  | Thread_start nat
  | Slider_get int
  | Set_rate int
  | Say pystr
  | Run_and_wait_returned
  | Print pystr
  | Root_after callback

text \<open>
  \<open>text_area\<close> is the string that \<open>self.text_area.get("1.0", tk.END)\<close> returns,
  \<open>rate_slider\<close> the value of the scale, \<open>engine_rate\<close> the \<open>rate\<close> property of the
  engine once it has been set, \<open>after_queue\<close> the callbacks registered with
  \<open>root.after(0, ...)\<close> that the main loop has not run yet.
\<close>

record app =
  text_area :: pystr
  rate_slider :: int
  run_btn :: widget_state
  status :: pystr
  engine_rate :: "int option"
  threads :: "worker list"
  after_queue :: "callback list"
  trace :: "(context \<times> action) list"

text \<open>
  The widgets as \<open>ui_init\<close> builds them: an empty text area (whose \<open>get\<close> returns a
  newline), the scale set to 200, the button in its default state, the status bar.
\<close>

definition ui_init :: app where
  "ui_init = \<lparr>text_area = [10], rate_slider = 200, run_btn = NORMAL,
     status = ascii ''SYSTEM READY'', engine_rate = None, threads = [],
     after_queue = [], trace = []\<rparr>"

text \<open>
  \<open>reset_ui\<close> and \<open>run_audio\<close> are methods: whoever calls them executes them. Their
  first argument after the table is the context that executes the call; it is what the
  trace records. The caller supplies it (see \<open>step\<close>).
\<close>

definition reset_ui :: "context \<Rightarrow> app \<Rightarrow> app" where
  "reset_ui c s = s\<lparr>run_btn := NORMAL, status := ascii ''SYSTEM READY'',
     trace := trace s @ [(c, Btn_config NORMAL),
                         (c, Status_config (ascii ''SYSTEM READY''))]\<rparr>"

text \<open>
  \<open>run_audio\<close> up to \<open>Thread(...).start()\<close>, executed in context \<open>c\<close>. The new
  thread gets the next free index.
\<close>

definition run_audio :: "unicode_db \<Rightarrow> context \<Rightarrow> app \<Rightarrow> app" where
  "run_audio U c s =
     (let raw = strip U (text_area s) in
      if raw = [] then
        s\<lparr>trace := trace s @
             [(c, Show_warning (ascii ''Logic Error'') (ascii ''Input buffer is empty.''))]\<rparr>
      else
        s\<lparr>run_btn := DISABLED, status := ascii ''AUDIT IN PROGRESS...'',
          threads := threads s @ [\<lparr>raw_text = raw, pc = Spawned\<rparr>],
          trace := trace s @ [(c, Btn_config DISABLED),
                              (c, Status_config (ascii ''AUDIT IN PROGRESS...'')),
                              (c, Thread_start (length (threads s)))]\<rparr>)"

definition set_pc :: "nat \<Rightarrow> phase \<Rightarrow> app \<Rightarrow> app" where
  "set_pc tid p s = s\<lparr>threads := (threads s)[tid := (threads s ! tid)\<lparr>pc := p\<rparr>]\<rparr>"

definition log :: "context \<Rightarrow> action \<Rightarrow> app \<Rightarrow> app" where
  "log c a s = s\<lparr>trace := trace s @ [(c, a)]\<rparr>"

text \<open>
  The clause \<open>except Exception as e: print(f"Audit Exception: {e}")\<close>: an
  \<open>Exception\<close> is printed and is over; anything else stays pending through
  \<open>finally\<close>.
\<close>

fun except_clause :: "nat \<Rightarrow> exn \<Rightarrow> app \<Rightarrow> app" where
  "except_clause tid (Exception m) s =
     set_pc tid (Finally None) (log (Worker tid) (Print (ascii ''Audit Exception: '' @ m)) s)"
| "except_clause tid (Base_exception m) s =
     set_pc tid (Finally (Some (Base_exception m))) s"

text \<open>
  One statement of \<open>speak_task\<close> in thread \<open>tid\<close>. \<open>out\<close> is what the engine call of
  that statement does, for the statements that call the engine.
\<close>

definition speak_task :: "unicode_db \<Rightarrow> nat \<Rightarrow> outcome \<Rightarrow> app \<Rightarrow> app" where
  "speak_task U tid out s =
     (case pc (threads s ! tid) of
        Spawned \<Rightarrow> set_pc tid (Sanitized (sanitize U (raw_text (threads s ! tid)))) s
      | Sanitized clean \<Rightarrow>
          (let r = rate_slider s; s1 = log (Worker tid) (Slider_get r) s in
           case out of
             Returns \<Rightarrow>
               set_pc tid (Configured clean)
                 (log (Worker tid) (Set_rate r) (s1\<lparr>engine_rate := Some r\<rparr>))
           | Raises e \<Rightarrow> except_clause tid e s1)
      | Configured clean \<Rightarrow>
          (case out of
             Returns \<Rightarrow> set_pc tid (Speaking clean) (log (Worker tid) (Say clean) s)
           | Raises e \<Rightarrow> except_clause tid e s)
      | Speaking clean \<Rightarrow>
          (case out of
             Returns \<Rightarrow> set_pc tid (Finally None) (log (Worker tid) Run_and_wait_returned s)
           | Raises e \<Rightarrow> except_clause tid e s)
      | Finally p \<Rightarrow>
          set_pc tid (Ended p)
            (log (Worker tid) (Root_after Reset_ui)
               (s\<lparr>after_queue := after_queue s @ [Reset_ui]\<rparr>))
      | Ended p \<Rightarrow> s)"

text \<open>
  What can happen next: the operator replaces the text, moves the scale (which keeps the
  value within 100 and 400), or clicks the button (Tk runs the command of a button only
  when the button is not disabled, and runs it in the main loop, so \<open>run_audio\<close> is
  executed in the main context); the main loop runs the oldest pending callback (so a
  \<open>reset_ui\<close> registered with \<open>root.after\<close> is executed in the main context); a
  worker thread executes its next statement (in its own context). A schedule is a list of such events, in the
  order in which they happen: every interleaving of the main context and the worker
  threads is a schedule. Closing the window ends the program and is no event.
\<close>

datatype event =
    User_types pystr
  | User_slides int
  | User_clicks
  | Main_idle
  | Worker_step nat outcome

fun step :: "unicode_db \<Rightarrow> event \<Rightarrow> app \<Rightarrow> app" where
  "step U (User_types t) s = s\<lparr>text_area := t\<rparr>"
| "step U (User_slides r) s = s\<lparr>rate_slider := max 100 (min 400 r)\<rparr>"
| "step U User_clicks s = (if run_btn s = NORMAL then run_audio U Main s else s)"
| "step U Main_idle s =
     (case after_queue s of
        [] \<Rightarrow> s
      | Reset_ui # q \<Rightarrow> reset_ui Main (s\<lparr>after_queue := q\<rparr>))"
| "step U (Worker_step tid out) s =
     (if tid < length (threads s) then speak_task U tid out s else s)"

fun exec :: "unicode_db \<Rightarrow> event list \<Rightarrow> app \<Rightarrow> app" where
  "exec U [] s = s"
| "exec U (e # es) s = exec U es (step U e s)"

text \<open>
  A background run is in progress while its thread has not ended; a \<open>Speak\<close> is in
  progress while the thread is inside \<open>runAndWait\<close>.
\<close>

fun running :: "phase \<Rightarrow> bool" where
  "running (Ended p) = False"
| "running _ = True"

fun in_speak :: "phase \<Rightarrow> bool" where
  "in_speak (Speaking clean) = True"
| "in_speak _ = False"

definition active_runs :: "app \<Rightarrow> nat" where
  "active_runs s = length (filter (\<lambda>w. running (pc w)) (threads s))"

definition speaks_in_progress :: "app \<Rightarrow> nat" where
  "speaks_in_progress s = length (filter (\<lambda>w. in_speak (pc w)) (threads s))"

text \<open>
  On the trace: the button is never configured or the status never set from a worker
  context; and the configurations of the button alternate, \<open>DISABLED\<close> first (\<open>r\<close>
  tells whether the last one was \<open>DISABLED\<close>).
\<close>

fun widget_action :: "action \<Rightarrow> bool" where
  "widget_action (Btn_config w) = True"
| "widget_action (Status_config t) = True"
| "widget_action _ = False"

fun on_foreground :: "(context \<times> action) list \<Rightarrow> bool" where
  "on_foreground [] = True"
| "on_foreground ((c, a) # tr) = ((if widget_action a then c = Main else True) \<and> on_foreground tr)"

fun alternates :: "bool \<Rightarrow> (context \<times> action) list \<Rightarrow> bool" where
  "alternates r [] = True"
| "alternates r ((c, Btn_config DISABLED) # tr) = (\<not> r \<and> alternates True tr)"
| "alternates r ((c, Btn_config NORMAL) # tr) = (r \<and> alternates False tr)"
| "alternates r (_ # tr) = alternates r tr"

fun last_disabled :: "bool \<Rightarrow> (context \<times> action) list \<Rightarrow> bool" where
  "last_disabled r [] = r"
| "last_disabled r ((c, Btn_config w) # tr) = last_disabled (w = DISABLED) tr"
| "last_disabled r (_ # tr) = last_disabled r tr"


text \<open>
  The invariant of the coordinator: with the button enabled nothing is pending; with the
  button disabled exactly one thing is, a background run or its callback. And the trace
  is well formed.
\<close>

definition coordinator_inv :: "app \<Rightarrow> bool" where
  "coordinator_inv s = ((if run_btn s = NORMAL then active_runs s + length (after_queue s) = 0
             else active_runs s + length (after_queue s) = 1)
            \<and> last_disabled False (trace s) = (run_btn s = DISABLED)
            \<and> alternates False (trace s) \<and> on_foreground (trace s))"

section \<open>The constructor\<close>

text \<open>
  The calls that \<open>KairosReader.__init__\<close> makes, in order: the three calls that set up
  the root window, \<open>pyttsx3.init(driverName='espeak')\<close>, \<open>setProperty('volume', 1.0)\<close>,
  and, in the \<open>except Exception\<close> clause, \<open>messagebox.showerror\<close> and
  \<open>self.root.destroy()\<close>. After the \<open>try\<close> statement comes \<open>self.ui_init()\<close>:
  the \<open>except\<close> clause neither returns nor raises, so the call follows it too.
  An engine call is recorded when it has returned. \<open>init_out\<close> and \<open>volume_out\<close> are
  what the two engine calls do. An exception that the clause does not catch leaves the
  constructor at once.
\<close>

datatype init_action =
    Root_setup
  | Engine_init
  | Engine_set_volume
  | Show_error pystr pystr
  | Root_destroy
  | Call_ui_init

fun init_except :: "exn \<Rightarrow> init_action list \<Rightarrow> init_action list" where
  "init_except (Exception m) done =
     done @ [Show_error (ascii ''Kernel Error'') (ascii ''TTS Engine failed: '' @ m),
             Root_destroy, Call_ui_init]"
| "init_except (Base_exception m) done = done"

definition KairosReader_init :: "outcome \<Rightarrow> outcome \<Rightarrow> init_action list" where
  "KairosReader_init init_out volume_out =
     (case init_out of
        Raises e \<Rightarrow> init_except e [Root_setup]
      | Returns \<Rightarrow>
          (case volume_out of
             Raises e \<Rightarrow> init_except e [Root_setup, Engine_init]
           | Returns \<Rightarrow> [Root_setup, Engine_init, Engine_set_volume, Call_ui_init]))"

text \<open>
  A schedule for examples: the operator types \<open>Access granted.\<close>, sets the rate to 250
  and clicks; the worker sanitizes, configures, and calls \<open>say\<close>, so that it is inside
  \<open>runAndWait\<close>.
\<close>

definition demo_speaking :: "event list" where
  "demo_speaking = [User_types (ascii ''Access granted.''), User_slides 250, User_clicks,
     Worker_step 0 Returns, Worker_step 0 Returns, Worker_step 0 Returns]"

text \<open>
  A state for examples: submitted with the rate control at 250, the control then moved to
  400, the worker thread about to configure the engine.
\<close>

definition submitted :: app where
  "submitted = exec ascii_db
   [User_types (ascii ''Access granted.''), User_slides 250, User_clicks, User_slides 400,
    Worker_step 0 Returns] ui_init"

section \<open>The sanitizer\<close>

lemma in_sanitize_class:
  "in_class U sanitize_class c = (is_word U c \<or> is_space U c \<or> punctuation c)"
  by (simp add: sanitize_class_def punctuation_def)

lemma sanitize_filter: "sanitize U s = filter (in_class U sanitize_class) s"
  unfolding sanitize_def by (induction s) simp_all

lemma sanitize_Nil: "sanitize U [] = []"
  by (simp add: sanitize_def)

lemma sanitize_Cons:
  "sanitize U (c # cs) =
     (if is_word U c \<or> is_space U c \<or> punctuation c then c # sanitize U cs else sanitize U cs)"
  by (simp add: sanitize_def in_sanitize_class)

lemmas char_eval =
  ascii_def sanitize_Cons sanitize_Nil is_word_def is_space_def punctuation_def
  ascii_alnum_def ascii_space_def

lemma set_sanitize:
  "set (sanitize U s) = {c \<in> set s. is_word U c \<or> is_space U c \<or> punctuation c}"
  by (auto simp: sanitize_filter in_sanitize_class)

text \<open>
  C1 (as amended). Every character of \<open>sanitize s\<close> is a word character of \<open>\w\<close>, that
  is an ASCII letter or digit, the underscore, or a code point from 128 on that the Unicode
  database classifies as alphanumeric; or it is a whitespace character; or it is one of
  the five marks \<open>. , ! ? -\<close>. No other character appears in the output.
\<close>

theorem sanitize_alphabet:
  assumes "c \<in> set (sanitize U s)"
  shows "ascii_alnum c \<or> c = 95 \<or> (128 \<le> c \<and> db_alnum U c) \<or> is_space U c \<or> punctuation c"
proof -
  from assms have "is_word U c \<or> is_space U c \<or> punctuation c"
    by (simp add: set_sanitize)
  then show ?thesis
    by (auto simp: is_word_def split: if_splits)
qed

theorem sanitize_alphabet_witness:
  "33 \<in> set (sanitize ascii_db (ascii ''ok!#''))
   \<and> (ascii_alnum 33 \<or> (33::nat) = 95 \<or> (128 \<le> (33::nat) \<and> db_alnum ascii_db 33)
      \<or> is_space ascii_db 33 \<or> punctuation 33)"
proof -
  have h: "33 \<in> set (sanitize ascii_db (ascii ''ok!#''))"
    by (simp add: char_eval)
  from sanitize_alphabet [OF h] h show ?thesis
    by blast
qed

text \<open>
  C1 (as stated) fails: the underscore (95) is a word character of \<open>\w\<close>, so
  \<open>sanitize\<close> keeps it, and it is neither an ASCII letter or digit, nor whitespace, nor
  one of the five marks.
\<close>

theorem sanitize_keeps_underscore:
  "sanitize ascii_db (ascii ''a_b'') = ascii ''a_b''
   \<and> \<not> ascii_alnum 95 \<and> \<not> is_space ascii_db 95 \<and> \<not> punctuation 95"
  by (simp add: char_eval)

text \<open>
  C7. \<open>sanitize\<close> is idempotent: sanitizing a sanitized text changes nothing.
\<close>

theorem sanitize_idempotent: "sanitize U (sanitize U s) = sanitize U s"
  by (simp add: sanitize_filter)

text \<open>
  C8. The three stated examples: the empty text stays empty, \<open>###\<close> becomes the empty
  text, and \<open>Log@123: failed!\<close> becomes \<open>Log123 failed!\<close>, under every Unicode table.
\<close>

theorem sanitize_examples:
  "sanitize U (ascii []) = ascii []
   \<and> sanitize U (ascii ''###'') = ascii []
   \<and> sanitize U (ascii ''Log@123: failed!'') = ascii ''Log123 failed!''"
  by (simp add: char_eval)

text \<open>
  C10. \<open>sanitize s\<close> is a subsequence of \<open>s\<close>: characters are only deleted, the kept ones
  stay in their order, and the output is no longer than the input.
\<close>

theorem sanitize_subseq:
  "subseq (sanitize U s) s \<and> length (sanitize U s) \<le> length s"
  by (simp add: sanitize_filter)

section \<open>The coordinator: invariant of every schedule\<close>

lemma alternates_append:
  "alternates r (xs @ ys) = (alternates r xs \<and> alternates (last_disabled r xs) ys)"
  by (induction r xs rule: alternates.induct) auto

lemma last_disabled_append:
  "last_disabled r (xs @ ys) = last_disabled (last_disabled r xs) ys"
  by (induction r xs rule: last_disabled.induct) auto

lemma on_foreground_append:
  "on_foreground (xs @ ys) = (on_foreground xs \<and> on_foreground ys)"
  by (induction xs rule: on_foreground.induct) auto

lemma filter_update_count:
  "i < length xs \<Longrightarrow>
   length (filter P (xs[i := y])) + (if P (xs ! i) then 1 else 0)
     = length (filter P xs) + (if P y then 1 else 0)"
proof (induction xs arbitrary: i)
  case Nil
  then show ?case by simp
next
  case (Cons x xs)
  show ?case
  proof (cases i)
    case 0
    then show ?thesis by simp
  next
    case (Suc j)
    with Cons.prems have "j < length xs" by simp
    from Cons.IH [OF this] Suc show ?thesis by simp
  qed
qed

lemma set_pc_fields [simp]:
  "text_area (set_pc tid p s) = text_area s"
  "rate_slider (set_pc tid p s) = rate_slider s"
  "run_btn (set_pc tid p s) = run_btn s"
  "status (set_pc tid p s) = status s"
  "engine_rate (set_pc tid p s) = engine_rate s"
  "after_queue (set_pc tid p s) = after_queue s"
  "trace (set_pc tid p s) = trace s"
  "length (threads (set_pc tid p s)) = length (threads s)"
  by (simp_all add: set_pc_def)

lemma log_fields [simp]:
  "text_area (log c a s) = text_area s"
  "rate_slider (log c a s) = rate_slider s"
  "run_btn (log c a s) = run_btn s"
  "status (log c a s) = status s"
  "engine_rate (log c a s) = engine_rate s"
  "after_queue (log c a s) = after_queue s"
  "threads (log c a s) = threads s"
  "trace (log c a s) = trace s @ [(c, a)]"
  by (simp_all add: log_def)

lemma active_runs_log [simp]: "active_runs (log c a s) = active_runs s"
  by (simp add: active_runs_def)

lemma active_runs_set_pc:
  assumes "tid < length (threads s)"
  shows "active_runs (set_pc tid p s) + (if running (pc (threads s ! tid)) then 1 else 0)
           = active_runs s + (if running p then 1 else 0)"
  using filter_update_count [OF assms, of "\<lambda>w. running (pc w)" "(threads s ! tid)\<lparr>pc := p\<rparr>"]
  by (simp add: active_runs_def set_pc_def)

lemma active_runs_set_pc_same:
  assumes "tid < length (threads s)" and "running (pc (threads s ! tid)) = running p"
  shows "active_runs (set_pc tid p s) = active_runs s"
  using active_runs_set_pc [OF assms(1), of p] assms(2) by (simp split: if_splits)

lemma not_NORMAL: "(w \<noteq> NORMAL) = (w = DISABLED)"
  by (cases w) simp_all

lemma active_runs_other_fields [simp]:
  "active_runs (s\<lparr>text_area := t\<rparr>) = active_runs s"
  "active_runs (s\<lparr>rate_slider := r\<rparr>) = active_runs s"
  "active_runs (s\<lparr>run_btn := b\<rparr>) = active_runs s"
  "active_runs (s\<lparr>status := m\<rparr>) = active_runs s"
  "active_runs (s\<lparr>engine_rate := e\<rparr>) = active_runs s"
  "active_runs (s\<lparr>after_queue := q\<rparr>) = active_runs s"
  "active_runs (s\<lparr>trace := tr\<rparr>) = active_runs s"
  by (simp_all add: active_runs_def)

lemma coordinator_inv_ui_init: "coordinator_inv ui_init"
  by (simp add: coordinator_inv_def ui_init_def active_runs_def)

lemma coordinator_inv_log:
  assumes "coordinator_inv s" "\<not> widget_action a"
  shows "coordinator_inv (log c a s)"
  using assms
  by (cases a)
     (simp_all add: coordinator_inv_def alternates_append last_disabled_append on_foreground_append)

lemma coordinator_inv_set_pc:
  assumes "coordinator_inv s" "tid < length (threads s)" "running (pc (threads s ! tid)) = running p"
  shows "coordinator_inv (set_pc tid p s)"
  using assms by (simp add: coordinator_inv_def active_runs_set_pc_same)

lemma coordinator_inv_engine_rate: "coordinator_inv (s\<lparr>engine_rate := r\<rparr>) = coordinator_inv s"
  by (simp add: coordinator_inv_def)

lemma coordinator_inv_except_clause:
  assumes "coordinator_inv s" "tid < length (threads s)" "running (pc (threads s ! tid))"
  shows "coordinator_inv (except_clause tid e s)"
proof (cases e)
  case (Exception m)
  have "coordinator_inv (log (Worker tid) (Print (ascii ''Audit Exception: '' @ m)) s)"
    using assms(1) by (simp add: coordinator_inv_log)
  then show ?thesis
    using assms(2,3) Exception by (simp add: coordinator_inv_set_pc)
next
  case (Base_exception m)
  with assms show ?thesis by (simp add: coordinator_inv_set_pc)
qed

lemma coordinator_inv_enqueue:
  assumes "coordinator_inv s" "tid < length (threads s)" "pc (threads s ! tid) = Finally p"
  shows "coordinator_inv (set_pc tid (Ended p)
            (log (Worker tid) (Root_after Reset_ui) (s\<lparr>after_queue := after_queue s @ [Reset_ui]\<rparr>)))"
proof -
  let ?s2 = "log (Worker tid) (Root_after Reset_ui) (s\<lparr>after_queue := after_queue s @ [Reset_ui]\<rparr>)"
  define s3 where "s3 = set_pc tid (Ended p) ?s2"
  have len: "tid < length (threads ?s2)" using assms(2) by simp
  have a: "active_runs s3 + 1 = active_runs s"
    using active_runs_set_pc [OF len, of "Ended p"] assms(3) by (simp add: s3_def)
  from assms(1) a have b: "run_btn s = DISABLED" and c: "active_runs s + length (after_queue s) = 1"
    by (auto simp: coordinator_inv_def not_NORMAL split: if_splits)
  have q: "after_queue s3 = after_queue s @ [Reset_ui]"
    by (simp add: s3_def)
  have "length (after_queue s3) = length (after_queue s) + 1"
    by (simp add: q)
  with a c have n: "active_runs s3 + length (after_queue s3) = 1"
    by linarith
  have btn: "run_btn s3 = DISABLED"
    using b by (simp add: s3_def)
  have tr: "trace s3 = trace s @ [(Worker tid, Root_after Reset_ui)]"
    by (simp add: s3_def)
  from assms(1) b have "last_disabled False (trace s)" "alternates False (trace s)"
    "on_foreground (trace s)"
    by (simp_all add: coordinator_inv_def)
  then have "coordinator_inv s3"
    unfolding coordinator_inv_def using n btn
    by (simp add: tr alternates_append last_disabled_append on_foreground_append)
  then show ?thesis by (simp add: s3_def)
qed

lemma coordinator_inv_speak_task:
  assumes "coordinator_inv s" "tid < length (threads s)"
  shows "coordinator_inv (speak_task U tid out s)"
proof (cases "pc (threads s ! tid)")
  case Spawned
  with assms show ?thesis
    by (simp add: speak_task_def coordinator_inv_set_pc)
next
  case (Sanitized clean)
  let ?s1 = "log (Worker tid) (Slider_get (rate_slider s)) s"
  have s1: "coordinator_inv ?s1" using assms(1) by (simp add: coordinator_inv_log)
  show ?thesis
  proof (cases out)
    case Returns
    have "coordinator_inv (log (Worker tid) (Set_rate (rate_slider s)) (?s1\<lparr>engine_rate := Some (rate_slider s)\<rparr>))"
      using s1 by (simp add: coordinator_inv_log coordinator_inv_engine_rate)
    then show ?thesis
      using Sanitized Returns assms(2) by (simp add: speak_task_def Let_def coordinator_inv_set_pc)
  next
    case (Raises e)
    from coordinator_inv_except_clause [OF s1, of tid e] Sanitized Raises assms(2) show ?thesis
      by (simp add: speak_task_def Let_def)
  qed
next
  case (Configured clean)
  show ?thesis
  proof (cases out)
    case Returns
    have "coordinator_inv (log (Worker tid) (Say clean) s)"
      using assms(1) by (simp add: coordinator_inv_log)
    then show ?thesis
      using Configured Returns assms(2) by (simp add: speak_task_def coordinator_inv_set_pc)
  next
    case (Raises e)
    from coordinator_inv_except_clause [OF assms, of e] Configured Raises show ?thesis
      by (simp add: speak_task_def)
  qed
next
  case (Speaking clean)
  show ?thesis
  proof (cases out)
    case Returns
    have "coordinator_inv (log (Worker tid) Run_and_wait_returned s)"
      using assms(1) by (simp add: coordinator_inv_log)
    then show ?thesis
      using Speaking Returns assms(2) by (simp add: speak_task_def coordinator_inv_set_pc)
  next
    case (Raises e)
    from coordinator_inv_except_clause [OF assms, of e] Speaking Raises show ?thesis
      by (simp add: speak_task_def)
  qed
next
  case (Finally p)
  from coordinator_inv_enqueue [OF assms this] Finally show ?thesis
    by (simp add: speak_task_def)
next
  case (Ended p)
  then show ?thesis by (simp add: speak_task_def assms)
qed

lemma coordinator_inv_run_audio:
  assumes "coordinator_inv s" "run_btn s = NORMAL"
  shows "coordinator_inv (run_audio U Main s)"
  using assms
  by (simp add: run_audio_def Let_def coordinator_inv_def active_runs_def alternates_append
        last_disabled_append on_foreground_append)

lemma coordinator_inv_reset_ui:
  assumes "coordinator_inv s" "after_queue s = Reset_ui # q"
  shows "coordinator_inv (reset_ui Main (s\<lparr>after_queue := q\<rparr>))"
proof -
  from assms have b: "run_btn s = DISABLED" and c: "active_runs s = 0" and d: "q = []"
    by (auto simp: coordinator_inv_def not_NORMAL split: if_splits)
  with assms(1) show ?thesis
    by (simp add: reset_ui_def coordinator_inv_def alternates_append last_disabled_append
          on_foreground_append)
qed

lemma coordinator_inv_step: "coordinator_inv s \<Longrightarrow> coordinator_inv (step U ev s)"
proof (cases ev)
  case (User_types t)
  assume "coordinator_inv s"
  then show ?thesis using User_types by (simp add: coordinator_inv_def)
next
  case (User_slides r)
  assume "coordinator_inv s"
  then show ?thesis using User_slides by (simp add: coordinator_inv_def)
next
  case User_clicks
  assume "coordinator_inv s"
  then show ?thesis using User_clicks by (simp add: coordinator_inv_run_audio)
next
  case Main_idle
  assume "coordinator_inv s"
  then show ?thesis using Main_idle
    by (cases "after_queue s") (auto simp: coordinator_inv_reset_ui split: callback.splits)
next
  case (Worker_step tid out)
  assume "coordinator_inv s"
  then show ?thesis using Worker_step by (simp add: coordinator_inv_speak_task)
qed

lemma coordinator_inv_exec: "coordinator_inv s \<Longrightarrow> coordinator_inv (exec U evs s)"
  by (induction evs arbitrary: s) (simp_all add: coordinator_inv_step)


section \<open>Evaluation of concrete schedules\<close>

lemmas run_eval =
  demo_speaking_def ui_init_def run_audio_def reset_ui_def strip_def speak_task_def
  set_pc_def log_def Let_def active_runs_def speaks_in_progress_def char_eval

section \<open>Single flight\<close>



section \<open>Order and context of the notifications\<close>

lemma widgets_except_clause:
  "run_btn (except_clause tid e s) = run_btn s \<and> status (except_clause tid e s) = status s"
  by (cases e) simp_all

lemma widgets_speak_task:
  "run_btn (speak_task U tid out s) = run_btn s \<and> status (speak_task U tid out s) = status s"
proof (cases "pc (threads s ! tid)")
  case Spawned
  then show ?thesis by (simp add: speak_task_def)
next
  case (Sanitized clean)
  then show ?thesis
    by (cases out) (simp_all add: speak_task_def Let_def widgets_except_clause)
next
  case (Configured clean)
  then show ?thesis
    by (cases out) (simp_all add: speak_task_def widgets_except_clause)
next
  case (Speaking clean)
  then show ?thesis
    by (cases out) (simp_all add: speak_task_def widgets_except_clause)
next
  case (Finally p)
  then show ?thesis by (simp add: speak_task_def)
next
  case (Ended p)
  then show ?thesis by (simp add: speak_task_def)
qed

lemma widgets_worker_step:
  "run_btn (step U (Worker_step tid out) s) = run_btn s
   \<and> status (step U (Worker_step tid out) s) = status s"
  by (simp add: widgets_speak_task)

lemma step_idle_pending:
  assumes "after_queue s \<noteq> []"
  shows "step U Main_idle s = reset_ui Main (s\<lparr>after_queue := tl (after_queue s)\<rparr>)"
  using assms by (cases "after_queue s") (auto split: callback.splits)

text \<open>
  The trace tells who executes a call: were \<open>reset_ui\<close> called by a worker thread, the
  trace would hold a configuration of the button made in a worker context.
\<close>

lemma reset_ui_in_worker_shows:
  "\<not> on_foreground (trace (reset_ui (Worker 0) ui_init))"
  by (simp add: reset_ui_def ui_init_def)

text \<open>
  C6. In every state \<open>s\<close> that a schedule reaches from the freshly built interface:
  \<^item> the configurations of the button in the trace alternate, beginning with
    \<open>DISABLED\<close>: each run-finished notification (\<open>NORMAL\<close>) comes strictly after the
    run-started notification (\<open>DISABLED\<close>) of its run;
  \<^item> every configuration of the button or of the status bar in the trace was executed
    in the main context;
  \<^item> the button is disabled exactly when the last notification in the trace is
    \<open>DISABLED\<close>;
  \<^item> no statement of a worker thread changes the button or the status bar: the worker
    only registers \<open>reset_ui\<close> with \<open>root.after\<close>;
  \<^item> when a callback is pending, the next turn of the main loop delivers the
    run-finished notification in the main context: the button is enabled again and the
    status bar reads \<open>SYSTEM READY\<close>;
  \<^item> an accepted submission (button enabled, stripped text not empty) delivers the
    run-started notification in the main context at once: the button is disabled and the
    status bar reads \<open>AUDIT IN PROGRESS...\<close>, before the thread is started.
\<close>

theorem notifications_ordered:
  assumes "s = exec U evs ui_init"
  shows "alternates False (trace s)
   \<and> on_foreground (trace s)
   \<and> last_disabled False (trace s) = (run_btn s = DISABLED)
   \<and> run_btn (step U (Worker_step tid out) s) = run_btn s
   \<and> status (step U (Worker_step tid out) s) = status s
   \<and> (after_queue s \<noteq> [] \<longrightarrow>
        run_btn (step U Main_idle s) = NORMAL
        \<and> status (step U Main_idle s) = ascii ''SYSTEM READY''
        \<and> trace (step U Main_idle s) =
            trace s @ [(Main, Btn_config NORMAL), (Main, Status_config (ascii ''SYSTEM READY''))])
   \<and> (run_btn s = NORMAL \<and> strip U (text_area s) \<noteq> [] \<longrightarrow>
        run_btn (step U User_clicks s) = DISABLED
        \<and> status (step U User_clicks s) = ascii ''AUDIT IN PROGRESS...''
        \<and> trace (step U User_clicks s) =
            trace s @ [(Main, Btn_config DISABLED),
                       (Main, Status_config (ascii ''AUDIT IN PROGRESS...'')),
                       (Main, Thread_start (length (threads s)))])"
proof -
  have "coordinator_inv s"
    using assms coordinator_inv_exec [OF coordinator_inv_ui_init] by simp
  then have a: "alternates False (trace s)" and b: "on_foreground (trace s)"
    and c: "last_disabled False (trace s) = (run_btn s = DISABLED)"
    by (simp_all add: coordinator_inv_def)
  have d: "run_btn (step U (Worker_step tid out) s) = run_btn s"
    and e: "status (step U (Worker_step tid out) s) = status s"
    using widgets_worker_step [of U tid out s] by simp_all
  have f: "after_queue s \<noteq> [] \<longrightarrow>
        run_btn (step U Main_idle s) = NORMAL
        \<and> status (step U Main_idle s) = ascii ''SYSTEM READY''
        \<and> trace (step U Main_idle s) =
            trace s @ [(Main, Btn_config NORMAL), (Main, Status_config (ascii ''SYSTEM READY''))]"
  proof
    assume "after_queue s \<noteq> []"
    from step_idle_pending [OF this, of U]
    show "run_btn (step U Main_idle s) = NORMAL
        \<and> status (step U Main_idle s) = ascii ''SYSTEM READY''
        \<and> trace (step U Main_idle s) =
            trace s @ [(Main, Btn_config NORMAL), (Main, Status_config (ascii ''SYSTEM READY''))]"
      by (simp add: reset_ui_def)
  qed
  have g: "run_btn s = NORMAL \<and> strip U (text_area s) \<noteq> [] \<longrightarrow>
        run_btn (step U User_clicks s) = DISABLED
        \<and> status (step U User_clicks s) = ascii ''AUDIT IN PROGRESS...''
        \<and> trace (step U User_clicks s) =
            trace s @ [(Main, Btn_config DISABLED),
                       (Main, Status_config (ascii ''AUDIT IN PROGRESS...'')),
                       (Main, Thread_start (length (threads s)))]"
    by (simp add: run_audio_def)
  from a b c d e f g show ?thesis by blast
qed

text \<open>
  The theorem at two states of one run of \<open>Access granted.\<close> at rate 250. Before the
  click the button is enabled and the text is not empty, and the click delivers the
  run-started notification. After the worker has run to its end a callback is pending,
  and the turn of the main loop delivers the run-finished notification; the whole trace
  of the run is given.
\<close>

theorem notifications_ordered_witness:
  "run_btn (exec ascii_db [User_types (ascii ''Access granted.''), User_slides 250] ui_init) = NORMAL
   \<and> strip ascii_db
        (text_area (exec ascii_db [User_types (ascii ''Access granted.''), User_slides 250] ui_init))
       \<noteq> []
   \<and> run_btn (step ascii_db User_clicks
        (exec ascii_db [User_types (ascii ''Access granted.''), User_slides 250] ui_init)) = DISABLED
   \<and> after_queue (exec ascii_db
        (demo_speaking @ [Worker_step 0 Returns, Worker_step 0 Returns]) ui_init) \<noteq> []
   \<and> run_btn (exec ascii_db
        (demo_speaking @ [Worker_step 0 Returns, Worker_step 0 Returns]) ui_init) = DISABLED
   \<and> run_btn (step ascii_db Main_idle (exec ascii_db
        (demo_speaking @ [Worker_step 0 Returns, Worker_step 0 Returns]) ui_init)) = NORMAL
   \<and> trace (step ascii_db Main_idle (exec ascii_db
        (demo_speaking @ [Worker_step 0 Returns, Worker_step 0 Returns]) ui_init))
      = [(Main, Btn_config DISABLED), (Main, Status_config (ascii ''AUDIT IN PROGRESS...'')),
         (Main, Thread_start 0), (Worker 0, Slider_get 250), (Worker 0, Set_rate 250),
         (Worker 0, Say (ascii ''Access granted.'')), (Worker 0, Run_and_wait_returned),
         (Worker 0, Root_after Reset_ui),
         (Main, Btn_config NORMAL), (Main, Status_config (ascii ''SYSTEM READY''))]
   \<and> alternates False (trace (exec ascii_db
        (demo_speaking @ [Worker_step 0 Returns, Worker_step 0 Returns]) ui_init))
   \<and> on_foreground (trace (exec ascii_db
        (demo_speaking @ [Worker_step 0 Returns, Worker_step 0 Returns]) ui_init))"
proof -
  let ?before = "exec ascii_db [User_types (ascii ''Access granted.''), User_slides 250] ui_init"
  let ?ended = "exec ascii_db (demo_speaking @ [Worker_step 0 Returns, Worker_step 0 Returns]) ui_init"
  have h1: "run_btn ?before = NORMAL \<and> strip ascii_db (text_area ?before) \<noteq> []"
    by (simp add: run_eval)
  have h2: "after_queue ?ended \<noteq> []"
    by (simp add: run_eval)
  have h3: "run_btn ?ended = DISABLED"
    by (simp add: run_eval)
  have t: "trace ?ended
      = [(Main, Btn_config DISABLED), (Main, Status_config (ascii ''AUDIT IN PROGRESS...'')),
         (Main, Thread_start 0), (Worker 0, Slider_get 250), (Worker 0, Set_rate 250),
         (Worker 0, Say (ascii ''Access granted.'')), (Worker 0, Run_and_wait_returned),
         (Worker 0, Root_after Reset_ui)]"
    by (simp add: run_eval)
  note started = notifications_ordered
    [OF refl, of ascii_db "[User_types (ascii ''Access granted.''), User_slides 250]"]
  note finished = notifications_ordered
    [OF refl, of ascii_db "demo_speaking @ [Worker_step 0 Returns, Worker_step 0 Returns]"]
  from started h1 have c: "run_btn (step ascii_db User_clicks ?before) = DISABLED"
    by blast
  from finished h2 have f: "run_btn (step ascii_db Main_idle ?ended) = NORMAL"
    and g: "trace (step ascii_db Main_idle ?ended) =
         trace ?ended @ [(Main, Btn_config NORMAL), (Main, Status_config (ascii ''SYSTEM READY''))]"
    and a: "alternates False (trace ?ended)" and b: "on_foreground (trace ?ended)"
    by blast+
  from g have g': "trace (step ascii_db Main_idle ?ended)
      = [(Main, Btn_config DISABLED), (Main, Status_config (ascii ''AUDIT IN PROGRESS...'')),
         (Main, Thread_start 0), (Worker 0, Slider_get 250), (Worker 0, Set_rate 250),
         (Worker 0, Say (ascii ''Access granted.'')), (Worker 0, Run_and_wait_returned),
         (Worker 0, Root_after Reset_ui),
         (Main, Btn_config NORMAL), (Main, Status_config (ascii ''SYSTEM READY''))]"
    by (simp only: t append.simps)
  from h1 c h2 h3 f g' a b show ?thesis by blast
qed

section \<open>Empty input\<close>

text \<open>
  C5. When the text of the buffer, stripped, is empty, \<open>run_audio\<close> only shows the
  warning "Input buffer is empty." (the rejection of the submission) and returns: the
  button keeps its state, no thread is started, nothing is registered with the main loop.
  The empty text and the text of three spaces are both empty when stripped, so both are
  rejected in this one way.
\<close>

theorem empty_input_rejected:
  assumes "strip U (text_area s) = []"
  shows "run_audio U c s =
           s\<lparr>trace := trace s @
               [(c, Show_warning (ascii ''Logic Error'') (ascii ''Input buffer is empty.''))]\<rparr>
         \<and> run_btn (run_audio U c s) = run_btn s
         \<and> threads (run_audio U c s) = threads s
         \<and> after_queue (run_audio U c s) = after_queue s
         \<and> strip U (ascii []) = [] \<and> strip U (ascii ''   '') = []"
  using assms by (simp add: run_audio_def strip_def char_eval)

theorem empty_input_rejected_witness:
  "strip ascii_db (text_area (ui_init\<lparr>text_area := ascii ''   ''\<rparr>)) = []
   \<and> run_audio ascii_db Main (ui_init\<lparr>text_area := ascii ''   ''\<rparr>) =
       ui_init\<lparr>text_area := ascii ''   '',
         trace := [(Main, Show_warning (ascii ''Logic Error'') (ascii ''Input buffer is empty.''))]\<rparr>
   \<and> run_btn (run_audio ascii_db Main (ui_init\<lparr>text_area := ascii ''   ''\<rparr>)) = NORMAL
   \<and> threads (run_audio ascii_db Main (ui_init\<lparr>text_area := ascii ''   ''\<rparr>)) = []"
proof -
  have h: "strip ascii_db (text_area (ui_init\<lparr>text_area := ascii ''   ''\<rparr>)) = []"
    by (simp add: strip_def char_eval)
  from empty_input_rejected [OF h, of Main] h show ?thesis
    by (simp add: ui_init_def)
qed

section \<open>Failure of the engine during a run\<close>

lemma threads_nth_set_pc:
  "tid < length (threads s) \<Longrightarrow> threads (set_pc tid p s) ! tid = (threads s ! tid)\<lparr>pc := p\<rparr>"
  by (simp add: set_pc_def)

lemma step_raise_in_speak:
  assumes "tid < length (threads s)"
    and "pc (threads s ! tid) = Configured clean \<or> pc (threads s ! tid) = Speaking clean"
  shows "step U (Worker_step tid (Raises (Exception m))) s =
           set_pc tid (Finally None)
             (log (Worker tid) (Print (ascii ''Audit Exception: '' @ m)) s)"
  using assms by (auto simp: speak_task_def)

lemma step_finally:
  assumes "tid < length (threads s)" and "pc (threads s ! tid) = Finally p"
  shows "step U (Worker_step tid out) s =
           set_pc tid (Ended p)
             (log (Worker tid) (Root_after Reset_ui)
                (s\<lparr>after_queue := after_queue s @ [Reset_ui]\<rparr>))"
  using assms by (simp add: speak_task_def)

lemma step_idle_nonempty:
  assumes "after_queue s = q @ [Reset_ui]"
  shows "step U Main_idle s = reset_ui Main (s\<lparr>after_queue := tl (after_queue s)\<rparr>)"
  using assms by (cases q) (auto split: callback.splits)

text \<open>
  C3. When the engine raises an \<open>Exception\<close> in \<open>say\<close> or in \<open>runAndWait\<close>, the
  thread catches it and prints it, nothing stays uncaught; it then registers \<open>reset_ui\<close>,
  the main loop runs it and the button is enabled again; and a click that follows, on a
  non-empty buffer, starts a new run.
\<close>

theorem speak_error_contained:
  assumes "tid < length (threads s)"
    and "pc (threads s ! tid) = Configured clean \<or> pc (threads s ! tid) = Speaking clean"
    and "strip U (text_area s) \<noteq> []"
  shows "let s1 = step U (Worker_step tid (Raises (Exception m))) s;
             s3 = exec U [Worker_step tid Returns, Main_idle] s1;
             s4 = step U User_clicks s3
         in pc (threads s1 ! tid) = Finally None
            \<and> trace s1 = trace s @ [(Worker tid, Print (ascii ''Audit Exception: '' @ m))]
            \<and> pc (threads s3 ! tid) = Ended None
            \<and> run_btn s3 = NORMAL
            \<and> run_btn s4 = DISABLED
            \<and> threads s4 = threads s3 @ [\<lparr>raw_text = strip U (text_area s), pc = Spawned\<rparr>]"
proof -
  define s1 where "s1 = step U (Worker_step tid (Raises (Exception m))) s"
  define s2 where "s2 = step U (Worker_step tid Returns) s1"
  define s3 where "s3 = step U Main_idle s2"
  define s4 where "s4 = step U User_clicks s3"
  have e1: "s1 = set_pc tid (Finally None)
                   (log (Worker tid) (Print (ascii ''Audit Exception: '' @ m)) s)"
    unfolding s1_def by (rule step_raise_in_speak [OF assms(1,2)])
  have l1: "tid < length (threads s1)" and p1: "pc (threads s1 ! tid) = Finally None"
    and t1: "trace s1 = trace s @ [(Worker tid, Print (ascii ''Audit Exception: '' @ m))]"
    and x1: "text_area s1 = text_area s"
    using assms(1) by (simp_all add: e1 threads_nth_set_pc)
  have e2: "s2 = set_pc tid (Ended None)
                   (log (Worker tid) (Root_after Reset_ui)
                      (s1\<lparr>after_queue := after_queue s1 @ [Reset_ui]\<rparr>))"
    unfolding s2_def by (rule step_finally [OF l1 p1])
  have l2: "tid < length (threads s2)" and p2: "pc (threads s2 ! tid) = Ended None"
    and q2: "after_queue s2 = after_queue s1 @ [Reset_ui]" and x2: "text_area s2 = text_area s1"
    using l1 by (simp_all add: e2 threads_nth_set_pc)
  have e3: "s3 = reset_ui Main (s2\<lparr>after_queue := tl (after_queue s2)\<rparr>)"
    unfolding s3_def by (rule step_idle_nonempty [OF q2])
  have p3: "pc (threads s3 ! tid) = Ended None" and b3: "run_btn s3 = NORMAL"
    and x3: "text_area s3 = text_area s2"
    using p2 by (simp_all add: e3 reset_ui_def)
  have x: "strip U (text_area s3) \<noteq> []"
    using assms(3) by (simp add: x1 x2 x3)
  have b4: "run_btn s4 = DISABLED"
    and th4: "threads s4 = threads s3 @ [\<lparr>raw_text = strip U (text_area s), pc = Spawned\<rparr>]"
    using b3 x by (simp_all add: s4_def run_audio_def x1 x2 x3)
  have ex: "exec U [Worker_step tid Returns, Main_idle] s1 = s3"
    unfolding s3_def s2_def by (simp only: exec.simps)
  show ?thesis
    unfolding Let_def s1_def [symmetric] ex s4_def [symmetric]
    using p1 t1 p3 b3 b4 th4 by blast
qed

theorem speak_error_contained_witness:
  "0 < length (threads (exec ascii_db demo_speaking ui_init))
   \<and> pc (threads (exec ascii_db demo_speaking ui_init) ! 0) = Speaking (ascii ''Access granted.'')
   \<and> strip ascii_db (text_area (exec ascii_db demo_speaking ui_init)) \<noteq> []
   \<and> (let s1 = step ascii_db (Worker_step 0 (Raises (Exception (ascii ''no audio''))))
                  (exec ascii_db demo_speaking ui_init);
            s3 = exec ascii_db [Worker_step 0 Returns, Main_idle] s1;
            s4 = step ascii_db User_clicks s3
        in pc (threads s1 ! 0) = Finally None
           \<and> trace s1 = trace (exec ascii_db demo_speaking ui_init)
                 @ [(Worker 0, Print (ascii ''Audit Exception: '' @ ascii ''no audio''))]
           \<and> pc (threads s3 ! 0) = Ended None
           \<and> run_btn s3 = NORMAL
           \<and> run_btn s4 = DISABLED
           \<and> threads s4 = threads s3
                 @ [\<lparr>raw_text = strip ascii_db (text_area (exec ascii_db demo_speaking ui_init)),
                     pc = Spawned\<rparr>])"
proof -
  have h1: "0 < length (threads (exec ascii_db demo_speaking ui_init))"
    by (simp add: run_eval)
  have p: "pc (threads (exec ascii_db demo_speaking ui_init) ! 0) = Speaking (ascii ''Access granted.'')"
    by (simp add: run_eval)
  then have h2: "pc (threads (exec ascii_db demo_speaking ui_init) ! 0) = Configured (ascii ''Access granted.'')
            \<or> pc (threads (exec ascii_db demo_speaking ui_init) ! 0) = Speaking (ascii ''Access granted.'')"
    by (rule disjI2)
  have h3: "strip ascii_db (text_area (exec ascii_db demo_speaking ui_init)) \<noteq> []"
    by (simp add: run_eval)
  from speak_error_contained [OF h1 h2 h3, of "ascii ''no audio''"] h1 p h3 show ?thesis
    by blast
qed

section \<open>Text and rate of a run\<close>

lemma raw_text_set_pc:
  "tid < length (threads s) \<Longrightarrow>
     raw_text (threads (set_pc t p s) ! tid) = raw_text (threads s ! tid)"
  by (cases "t = tid") (simp_all add: set_pc_def)

lemma raw_text_except_clause:
  "tid < length (threads s) \<Longrightarrow>
     length (threads (except_clause t e s)) = length (threads s)
     \<and> raw_text (threads (except_clause t e s) ! tid) = raw_text (threads s ! tid)"
  by (cases e) (simp_all add: raw_text_set_pc)

lemma raw_text_speak_task:
  assumes "tid < length (threads s)"
  shows "length (threads (speak_task U t out s)) = length (threads s)
         \<and> raw_text (threads (speak_task U t out s) ! tid) = raw_text (threads s ! tid)"
proof (cases "pc (threads s ! t)")
  case Spawned
  with assms show ?thesis by (simp add: speak_task_def raw_text_set_pc)
next
  case (Sanitized clean)
  with assms show ?thesis
    by (cases out) (simp_all add: speak_task_def Let_def raw_text_set_pc raw_text_except_clause)
next
  case (Configured clean)
  with assms show ?thesis
    by (cases out) (simp_all add: speak_task_def raw_text_set_pc raw_text_except_clause)
next
  case (Speaking clean)
  with assms show ?thesis
    by (cases out) (simp_all add: speak_task_def raw_text_set_pc raw_text_except_clause)
next
  case (Finally p)
  with assms show ?thesis by (simp add: speak_task_def raw_text_set_pc)
next
  case (Ended p)
  then show ?thesis by (simp add: speak_task_def)
qed

lemma raw_text_step:
  assumes "tid < length (threads s)"
  shows "tid < length (threads (step U ev s))
         \<and> raw_text (threads (step U ev s) ! tid) = raw_text (threads s ! tid)"
proof (cases ev)
  case (User_types t)
  with assms show ?thesis by simp
next
  case (User_slides r)
  with assms show ?thesis by simp
next
  case User_clicks
  with assms show ?thesis by (simp add: run_audio_def Let_def nth_append)
next
  case Main_idle
  with assms show ?thesis
    by (cases "after_queue s") (simp_all add: reset_ui_def split: callback.splits)
next
  case (Worker_step t out)
  with assms raw_text_speak_task [OF assms, of U t out] show ?thesis by simp
qed

lemma raw_text_exec:
  "tid < length (threads s) \<Longrightarrow>
     tid < length (threads (exec U evs s))
     \<and> raw_text (threads (exec U evs s) ! tid) = raw_text (threads s ! tid)"
proof (induction evs arbitrary: s)
  case Nil
  then show ?case by simp
next
  case (Cons e es)
  from raw_text_step [OF Cons.prems, of U e] Cons.IH [of "step U e s"] show ?case
    by simp
qed

lemma engine_rate_slides:
  "engine_rate (exec U (map User_slides rs) s) = engine_rate s"
  by (induction rs arbitrary: s) simp_all

text \<open>
  C9 (as amended). The rate of a run is the value that the rate control has when the
  worker thread configures the engine, and moving the control after that does not change
  the rate of the engine. The text of a run is the one captured when the run was
  submitted: no later event changes it.
\<close>

theorem rate_read_at_configure:
  assumes "tid < length (threads s)" and "pc (threads s ! tid) = Sanitized clean"
  shows "engine_rate (step U (Worker_step tid Returns) s) = Some (rate_slider s)
         \<and> engine_rate (exec U (map User_slides rs) (step U (Worker_step tid Returns) s))
             = Some (rate_slider s)
         \<and> raw_text (threads (exec U evs s) ! tid) = raw_text (threads s ! tid)"
proof -
  have "engine_rate (step U (Worker_step tid Returns) s) = Some (rate_slider s)"
    using assms by (simp add: speak_task_def Let_def)
  with raw_text_exec [OF assms(1), of U evs] show ?thesis
    by (simp add: engine_rate_slides)
qed

theorem rate_read_at_configure_witness:
  "0 < length (threads submitted)
   \<and> pc (threads submitted ! 0) = Sanitized (ascii ''Access granted.'')
   \<and> engine_rate (step ascii_db (Worker_step 0 Returns) submitted) = Some 400
   \<and> engine_rate (exec ascii_db (map User_slides [100, 300])
         (step ascii_db (Worker_step 0 Returns) submitted)) = Some 400
   \<and> raw_text (threads (exec ascii_db [User_types (ascii ''other'')] submitted) ! 0)
       = ascii ''Access granted.''"
proof -
  have h1: "0 < length (threads submitted)"
    by (simp add: submitted_def run_eval)
  have h2: "pc (threads submitted ! 0) = Sanitized (ascii ''Access granted.'')"
    by (simp add: submitted_def run_eval)
  have r: "rate_slider submitted = 400"
    by (simp add: submitted_def run_eval)
  have t: "raw_text (threads submitted ! 0) = ascii ''Access granted.''"
    by (simp add: submitted_def run_eval)
  from rate_read_at_configure [OF h1 h2, of ascii_db "[100, 300]" "[User_types (ascii ''other'')]"]
    h1 h2 show ?thesis
    by (simp only: r t)
qed

text \<open>
  C9 (as stated) fails: the rate is not captured at submission. The operator submits
  with the control at 250 and moves it to 400 before the worker thread reads it; the
  engine is configured with 400.
\<close>

theorem rate_not_captured_at_submit:
  "rate_slider (exec ascii_db [User_types (ascii ''Access granted.''), User_slides 250] ui_init) = 250
   \<and> trace (exec ascii_db
        [User_types (ascii ''Access granted.''), User_slides 250, User_clicks, User_slides 400,
         Worker_step 0 Returns, Worker_step 0 Returns] ui_init)
      = [(Main, Btn_config DISABLED), (Main, Status_config (ascii ''AUDIT IN PROGRESS...'')),
         (Main, Thread_start 0), (Worker 0, Slider_get 400), (Worker 0, Set_rate 400)]
   \<and> engine_rate (exec ascii_db
        [User_types (ascii ''Access granted.''), User_slides 250, User_clicks, User_slides 400,
         Worker_step 0 Returns, Worker_step 0 Returns] ui_init) = Some 400"
  by (simp add: run_eval)

section \<open>Failure of the engine at start\<close>

text \<open>
  C4. When \<open>pyttsx3.init\<close> raises an \<open>Exception\<close>, the constructor shows the
  error and destroys the root window, and then still calls \<open>ui_init\<close> on the object
  whose engine was never set: the call that constructs the interface is not skipped, the
  constructor makes no exit of its own.
\<close>

theorem init_failure_continues:
  "KairosReader_init (Raises (Exception m)) volume_out =
     [Root_setup,
      Show_error (ascii ''Kernel Error'') (ascii ''TTS Engine failed: '' @ m),
      Root_destroy, Call_ui_init]"
  by (simp add: KairosReader_init_def)

end
